theory Spec2Isabelle
  imports Main
begin

section \<open>Storage collaborator (internal/db, migrations)\<close>

text \<open>
  The tables of the chat schema, as lists of rows in insertion order.  A query of the
  \<^verbatim>\<open>db\<close> package can fail on the connection, on a malformed identifier or on a
  constraint; which calls fail for a reason outside the tables is given by
  \<open>query_fails\<close>.  \<open>gen_random_uuid\<close> and \<open>now\<close> stand for the two
  column defaults of the \<^verbatim>\<open>messages\<close> table.
\<close>

record Message =
  msg_ID :: string
  msg_ConversationID :: string
  msg_SenderID :: string
  msg_SenderUsername :: string
  msg_Content :: string
  msg_CreatedAt :: nat

record ConversationWithParticipants =
  cwp_ID :: string
  cwp_CreatedAt :: nat
  OtherUserID :: string
  OtherUsername :: string

datatype db_call =
    Query_IsUserInConversation string string
  | Query_CreateMessage string string string
  | Query_GetUserConversations string

record DB =
  users :: "(string \<times> string) list"
  conversations :: "(string \<times> nat) list"
  conversation_participants :: "(string \<times> string) list"
  messages :: "Message list"
  query_fails :: "db_call \<Rightarrow> bool"
  gen_random_uuid :: "nat \<Rightarrow> string"
  now :: nat

text \<open>
  \<^verbatim>\<open>IsUserInConversation\<close>: \<^verbatim>\<open>SELECT 1 FROM conversation_participants WHERE user_id = $1
  AND conversation_id = $2\<close>; no row is \<open>false\<close>, another error is an error.
\<close>

definition IsUserInConversation :: "string \<Rightarrow> string \<Rightarrow> DB \<Rightarrow> string + bool" where
  "IsUserInConversation userID conversationID d =
     (if query_fails d (Query_IsUserInConversation userID conversationID)
      then Inl ''failed to check participation''
      else Inr ((conversationID, userID) \<in> set (conversation_participants d)))"

text \<open>
  \<^verbatim>\<open>CreateMessage\<close>: the \<^verbatim>\<open>INSERT ... RETURNING\<close> into \<^verbatim>\<open>messages\<close>.  The two
  foreign keys of the table are checked by the insert.
\<close>

definition CreateMessage :: "string \<Rightarrow> string \<Rightarrow> string \<Rightarrow> DB \<Rightarrow> string + (Message \<times> DB)" where
  "CreateMessage conversationID senderID content d =
     (if query_fails d (Query_CreateMessage conversationID senderID content)
         \<or> conversationID \<notin> set (map fst (conversations d))
         \<or> senderID \<notin> set (map fst (users d))
      then Inl ''failed to create message''
      else
        (let msg = \<lparr> msg_ID = gen_random_uuid d (length (messages d)),
                     msg_ConversationID = conversationID,
                     msg_SenderID = senderID,
                     msg_SenderUsername = [],
                     msg_Content = content,
                     msg_CreatedAt = now d \<rparr>
         in Inr (msg, d\<lparr> messages := messages d @ [msg] \<rparr>)))"

text \<open>
  \<^verbatim>\<open>GetUserConversations\<close> (the version \<^verbatim>\<open>client.go\<close> is written against, whose rows
  carry \<^verbatim>\<open>OtherUserID\<close>): the four-way join, one row for each other participant of each
  conversation of the user, newest conversation first.  SQL leaves the order of the rows
  of one conversation open; here they keep the order of the tables (the sort is stable).
\<close>

definition conversation_rows :: "string \<Rightarrow> DB \<Rightarrow> ConversationWithParticipants list" where
  "conversation_rows userID d =
     concat (map (\<lambda>c.
       concat (map (\<lambda>cp1.
         concat (map (\<lambda>cp2.
           concat (map (\<lambda>u.
             (if fst cp1 = fst c \<and> fst cp2 = fst c \<and> fst u = snd cp2
                 \<and> snd cp1 = userID \<and> snd cp2 \<noteq> userID
              then [\<lparr> cwp_ID = fst c, cwp_CreatedAt = snd c,
                      OtherUserID = fst u, OtherUsername = snd u \<rparr>]
              else []))
             (users d)))
           (conversation_participants d)))
         (conversation_participants d)))
       (conversations d))"

fun insert_desc :: "ConversationWithParticipants \<Rightarrow> ConversationWithParticipants list
    \<Rightarrow> ConversationWithParticipants list" where
  "insert_desc r [] = [r]"
| "insert_desc r (x # xs) =
     (if cwp_CreatedAt x \<le> cwp_CreatedAt r then r # x # xs else x # insert_desc r xs)"

fun order_by_created_at_desc :: "ConversationWithParticipants list
    \<Rightarrow> ConversationWithParticipants list" where
  "order_by_created_at_desc [] = []"
| "order_by_created_at_desc (r # rs) = insert_desc r (order_by_created_at_desc rs)"

definition GetUserConversations :: "string \<Rightarrow> DB \<Rightarrow> string + ConversationWithParticipants list" where
  "GetUserConversations userID d =
     (if query_fails d (Query_GetUserConversations userID)
      then Inl ''failed to query conversations''
      else Inr (order_by_created_at_desc (conversation_rows userID d)))"

section \<open>Sessions and the hub state (internal/websocket)\<close>

type_synonym bytes = string
type_synonym client_ref = nat

text \<open>
  A \<^verbatim>\<open>Client\<close> is handled by pointer: the heap maps a reference to the struct.  The
  buffered channel \<^verbatim>\<open>send\<close> is its queue, its capacity and whether it has been
  closed; \<^verbatim>\<open>closeOnce\<close> is the done flag of the \<^verbatim>\<open>sync.Once\<close>.
\<close>

record Client =
  UserID :: string
  Username :: string
  send :: "bytes list"
  send_cap :: nat
  send_closed :: bool
  closeOnce :: bool

record OutgoingMessage =
  RecipientID :: string
  Data :: bytes

record Hub =
  clients :: "string \<rightharpoonup> client_ref"
  broadcast :: "OutgoingMessage list"

record IncomingMessage =
  in_Type :: string
  in_ConversationID :: string
  in_Content :: string
  in_IsTyping :: bool

record ChatMessage =
  chat_Type :: string
  chat_ID :: string
  chat_ConversationID :: string
  chat_SenderID :: string
  chat_SenderUsername :: string
  chat_Content :: string
  chat_CreatedAt :: string

record TypingMessage =
  typing_Type :: string
  typing_ConversationID :: string
  typing_UserID :: string
  typing_Username :: string
  typing_IsTyping :: bool

text \<open>The values passed as \<^verbatim>\<open>message interface{}\<close>.\<close>

datatype payload = Chat ChatMessage | Typing TypingMessage

text \<open>
  The calls a session's reader makes to its collaborators, in the order made: the
  record a mock of the storage layer and of the hub would keep.
\<close>

datatype event =
    Called_IsUserInConversation string string
  | Called_CreateMessage string string string
  | Returned_CreateMessage bool
  | Called_GetUserConversations string
  | Called_SendToUser string payload

record World =
  heap :: "client_ref \<Rightarrow> Client"
  next_ref :: client_ref
  hub :: Hub
  db :: DB
  log_lines :: "string list"
  history :: "event list"

text \<open>Go panics on closing a closed channel and on sending on one.\<close>

datatype panic = CloseOfClosedChannel | SendOnClosedChannel

text \<open>Library functions taken as parameters: \<^verbatim>\<open>json.Marshal\<close> and
  \<^verbatim>\<open>Time.Format(time.RFC3339)\<close>.\<close>

record Lib =
  json_Marshal :: "payload \<Rightarrow> string + bytes"
  time_Format_RFC3339 :: "nat \<Rightarrow> string"

definition log_Printf :: "string \<Rightarrow> World \<Rightarrow> World" where
  "log_Printf line w = w\<lparr> log_lines := log_lines w @ [line] \<rparr>"

definition record_event :: "event \<Rightarrow> World \<Rightarrow> World" where
  "record_event e w = w\<lparr> history := history w @ [e] \<rparr>"

definition NewHub :: Hub where
  "NewHub = \<lparr> clients = Map.empty, broadcast = [] \<rparr>"

definition broadcast_cap :: nat where
  "broadcast_cap = 256"

definition NewClient :: "string \<Rightarrow> string \<Rightarrow> Client" where
  "NewClient userID username =
     \<lparr> UserID = userID, Username = username, send = [], send_cap = 256,
       send_closed = False, closeOnce = False \<rparr>"

subsection \<open>Client.Close\<close>

definition close_chan :: "Client \<Rightarrow> panic + Client" where
  "close_chan c = (if send_closed c then Inl CloseOfClosedChannel
                   else Inr (c\<lparr> send_closed := True \<rparr>))"

definition Close :: "client_ref \<Rightarrow> World \<Rightarrow> panic + World" where
  "Close c w =
     (if closeOnce (heap w c) then Inr w
      else
        (let w1 = log_Printf (''Closing send channel for client: '' @ UserID (heap w c)) w
         in case close_chan (heap w1 c) of
              Inl p \<Rightarrow> Inl p
            | Inr c' \<Rightarrow> Inr (w1\<lparr> heap := (heap w1)(c := c'\<lparr> closeOnce := True \<rparr>) \<rparr>)))"

subsection \<open>Hub.Run: the three cases of the select\<close>

text \<open>The register case up to the store into the map: the old client is closed.\<close>

definition register_close_old :: "client_ref \<Rightarrow> World \<Rightarrow> panic + World" where
  "register_close_old client w =
     (let w1 = log_Printf (''Register request for: '' @ Username (heap w client)
                            @ '' ('' @ UserID (heap w client) @ '')'') w
      in case clients (hub w1) (UserID (heap w1 client)) of
           Some oldClient \<Rightarrow>
             Close oldClient
               (log_Printf (''Replacing existing client for: '' @ UserID (heap w1 client)) w1)
         | None \<Rightarrow> Inr w1)"

text \<open>The store \<^verbatim>\<open>h.clients[client.UserID] = client\<close> and the last log line.\<close>

definition register_store :: "client_ref \<Rightarrow> World \<Rightarrow> World" where
  "register_store client w =
     log_Printf (''Client connected: '' @ Username (heap w client)
                  @ '' ('' @ UserID (heap w client) @ '')'')
       (w\<lparr> hub := (hub w)\<lparr> clients := (clients (hub w))(UserID (heap w client) \<mapsto> client) \<rparr> \<rparr>)"

definition Run_register :: "client_ref \<Rightarrow> World \<Rightarrow> panic + World" where
  "Run_register client w =
     (case register_close_old client w of
        Inl p \<Rightarrow> Inl p
      | Inr w1 \<Rightarrow> Inr (register_store client w1))"

definition Run_unregister :: "client_ref \<Rightarrow> World \<Rightarrow> panic + World" where
  "Run_unregister client w =
     (let w1 = log_Printf (''Unregister request for: '' @ Username (heap w client)
                            @ '' ('' @ UserID (heap w client) @ '')'') w
      in if clients (hub w1) (UserID (heap w1 client)) = Some client
         then
           (let w2 = log_Printf (''Removing active client: '' @ UserID (heap w1 client)) w1;
                w3 = w2\<lparr> hub := (hub w2)\<lparr> clients :=
                              (clients (hub w2))(UserID (heap w2 client) := None) \<rparr> \<rparr>
            in case Close client w3 of
                 Inl p \<Rightarrow> Inl p
               | Inr w4 \<Rightarrow>
                   Inr (log_Printf (''Client disconnected: '' @ Username (heap w4 client)
                                     @ '' ('' @ UserID (heap w4 client) @ '')'') w4))
         else
           Inr (log_Printf (''Skipping unregister - client already replaced: ''
                             @ UserID (heap w1 client)) w1))"

text \<open>
  The inner \<^verbatim>\<open>select\<close> with a \<^verbatim>\<open>default\<close>: the send happens when the buffer has room,
  otherwise the default branch runs.
\<close>

definition Dispatch :: "OutgoingMessage \<Rightarrow> World \<Rightarrow> panic + World" where
  "Dispatch message w =
     (case clients (hub w) (RecipientID message) of
        None \<Rightarrow> Inr w
      | Some client \<Rightarrow>
          (if send_closed (heap w client) then Inl SendOnClosedChannel
           else if length (send (heap w client)) < send_cap (heap w client)
           then Inr (w\<lparr> heap := (heap w)(client :=
                        (heap w client)\<lparr> send := send (heap w client) @ [Data message] \<rparr>) \<rparr>)
           else Inr (log_Printf (''Failed to send message to '' @ RecipientID message
                                  @ '': buffer full'') w)))"

text \<open>
  The broadcast case receives the oldest queued message.  With nothing queued the case is
  not ready and the loop goes on waiting.
\<close>

definition Run_broadcast :: "World \<Rightarrow> panic + World" where
  "Run_broadcast w =
     (case broadcast (hub w) of
        [] \<Rightarrow> Inr w
      | message # rest \<Rightarrow> Dispatch message (w\<lparr> hub := (hub w)\<lparr> broadcast := rest \<rparr> \<rparr>))"

subsection \<open>Hub.SendToUser\<close>

text \<open>
  A call made by a session's goroutine either returns, or is suspended at a send on the
  hub's \<^verbatim>\<open>broadcast\<close> channel while that channel holds \<open>broadcast_cap\<close> messages;
  \<open>Blocked\<close> keeps the state reached at the suspension.
\<close>

datatype 'a outcome = Returned 'a World | Blocked World

fun world_of :: "'a outcome \<Rightarrow> World" where
  "world_of (Returned _ w) = w"
| "world_of (Blocked w) = w"

definition SendToUser :: "Lib \<Rightarrow> string \<Rightarrow> payload \<Rightarrow> World \<Rightarrow> (string option) outcome" where
  "SendToUser lib userID message w =
     (let w1 = record_event (Called_SendToUser userID message) w
      in case json_Marshal lib message of
           Inl err \<Rightarrow> Returned (Some err) w1
         | Inr data \<Rightarrow>
             (if length (broadcast (hub w1)) < broadcast_cap
              then Returned None
                     (w1\<lparr> hub := (hub w1)\<lparr> broadcast := broadcast (hub w1)
                             @ [\<lparr> RecipientID = userID, Data = data \<rparr>] \<rparr> \<rparr>)
              else Blocked w1))"

subsection \<open>The reader's handlers (client.go)\<close>

text \<open>The \<^verbatim>\<open>for ... range conversations\<close> loop with its \<^verbatim>\<open>break\<close>.\<close>

fun send_to_other :: "Lib \<Rightarrow> string \<Rightarrow> payload \<Rightarrow> ConversationWithParticipants list
    \<Rightarrow> World \<Rightarrow> unit outcome" where
  "send_to_other lib conversationID message [] w = Returned () w"
| "send_to_other lib conversationID message (conv # rest) w =
     (if cwp_ID conv = conversationID
      then (case SendToUser lib (OtherUserID conv) message w of
              Returned _ w' \<Rightarrow> Returned () w'
            | Blocked w' \<Rightarrow> Blocked w')
      else send_to_other lib conversationID message rest w)"

definition sendToConversationParticipants :: "Lib \<Rightarrow> client_ref \<Rightarrow> string \<Rightarrow> payload
    \<Rightarrow> World \<Rightarrow> unit outcome" where
  "sendToConversationParticipants lib c conversationID message w =
     (let w1 = record_event (Called_GetUserConversations (UserID (heap w c))) w
      in case GetUserConversations (UserID (heap w1 c)) (db w1) of
           Inl err \<Rightarrow> Returned () (log_Printf (''Failed to get conversations: '' @ err) w1)
         | Inr convs \<Rightarrow>
             (case send_to_other lib conversationID message convs w1 of
                Blocked w2 \<Rightarrow> Blocked w2
              | Returned _ w2 \<Rightarrow>
                  (case SendToUser lib (UserID (heap w2 c)) message w2 of
                     Returned _ w3 \<Rightarrow> Returned () w3
                   | Blocked w3 \<Rightarrow> Blocked w3)))"

text \<open>The \<^verbatim>\<open>ChatMessage\<close> that \<^verbatim>\<open>handleChatMessage\<close> builds from the saved row.\<close>

definition chat_payload :: "Lib \<Rightarrow> string \<Rightarrow> Message \<Rightarrow> payload" where
  "chat_payload lib username savedMsg =
     Chat \<lparr> chat_Type = ''message'',
            chat_ID = msg_ID savedMsg,
            chat_ConversationID = msg_ConversationID savedMsg,
            chat_SenderID = msg_SenderID savedMsg,
            chat_SenderUsername = username,
            chat_Content = msg_Content savedMsg,
            chat_CreatedAt = time_Format_RFC3339 lib (msg_CreatedAt savedMsg) \<rparr>"

definition handleChatMessage :: "Lib \<Rightarrow> client_ref \<Rightarrow> IncomingMessage \<Rightarrow> World
    \<Rightarrow> unit outcome" where
  "handleChatMessage lib c msg w =
     (let w1 = record_event
                 (Called_IsUserInConversation (UserID (heap w c)) (in_ConversationID msg)) w;
          notIn = log_Printf (''User '' @ UserID (heap w1 c) @ '' not in conversation ''
                               @ in_ConversationID msg) w1
      in case IsUserInConversation (UserID (heap w1 c)) (in_ConversationID msg) (db w1) of
           Inl err \<Rightarrow> Returned () notIn
         | Inr isParticipant \<Rightarrow>
             (if \<not> isParticipant then Returned () notIn
              else
                (let w2 = record_event (Called_CreateMessage (in_ConversationID msg)
                                          (UserID (heap w1 c)) (in_Content msg)) w1
                 in case CreateMessage (in_ConversationID msg) (UserID (heap w2 c))
                           (in_Content msg) (db w2) of
                      Inl err \<Rightarrow>
                        Returned () (log_Printf (''Failed to save message: '' @ err)
                                       (record_event (Returned_CreateMessage False) w2))
                    | Inr (savedMsg, d') \<Rightarrow>
                        (let w3 = record_event (Returned_CreateMessage True) (w2\<lparr> db := d' \<rparr>);
                             chatMsg = chat_payload lib (Username (heap w3 c)) savedMsg
                         in sendToConversationParticipants lib c (in_ConversationID msg)
                              chatMsg w3))))"

definition handleTypingMessage :: "Lib \<Rightarrow> client_ref \<Rightarrow> IncomingMessage \<Rightarrow> World
    \<Rightarrow> unit outcome" where
  "handleTypingMessage lib c msg w =
     (let w1 = record_event
                 (Called_IsUserInConversation (UserID (heap w c)) (in_ConversationID msg)) w
      in case IsUserInConversation (UserID (heap w1 c)) (in_ConversationID msg) (db w1) of
           Inl err \<Rightarrow> Returned () w1
         | Inr isParticipant \<Rightarrow>
             (if \<not> isParticipant then Returned () w1
              else
                (let typingMsg = \<lparr> typing_Type = ''typing'',
                                   typing_ConversationID = in_ConversationID msg,
                                   typing_UserID = UserID (heap w1 c),
                                   typing_Username = Username (heap w1 c),
                                   typing_IsTyping = in_IsTyping msg \<rparr>
                 in sendToConversationParticipants lib c (in_ConversationID msg)
                      (Typing typingMsg) w1)))"

text \<open>The \<^verbatim>\<open>switch msg.Type\<close> of \<^verbatim>\<open>ReadPump\<close>, for one decoded frame.\<close>

definition ReadPump_frame :: "Lib \<Rightarrow> client_ref \<Rightarrow> IncomingMessage \<Rightarrow> World \<Rightarrow> unit outcome" where
  "ReadPump_frame lib c msg w =
     (if in_Type msg = ''message'' then handleChatMessage lib c msg w
      else if in_Type msg = ''typing'' then handleTypingMessage lib c msg w
      else Returned () (log_Printf (''Unknown message type: '' @ in_Type msg) w))"

subsection \<open>Handler: a connection is accepted\<close>

text \<open>
  After the token is validated, \<^verbatim>\<open>NewClient\<close> allocates the session and the send on
  the unbuffered \<^verbatim>\<open>register\<close> channel completes when the hub takes it.
\<close>

definition Handler :: "string \<Rightarrow> string \<Rightarrow> World \<Rightarrow> panic + World" where
  "Handler userID username w =
     Run_register (next_ref w)
       (w\<lparr> heap := (heap w)(next_ref w := NewClient userID username),
           next_ref := Suc (next_ref w) \<rparr>)"

text \<open>The writer's receive from \<^verbatim>\<open>c.send\<close>: the oldest buffered frame leaves the buffer.\<close>

definition WritePump_receive :: "client_ref \<Rightarrow> World \<Rightarrow> World" where
  "WritePump_receive c w =
     (case send (heap w c) of
        [] \<Rightarrow> w
      | message # rest \<Rightarrow> w\<lparr> heap := (heap w)(c := (heap w c)\<lparr> send := rest \<rparr>) \<rparr>)"

subsection \<open>Runs of the hub\<close>

text \<open>
  The steps that touch the registry and the sessions' channels, in the order the hub and
  the channels serialise them.  A panic ends the run.
\<close>

datatype step =
    Connect string string
  | Register client_ref
  | Unregister client_ref
  | Broadcast
  | Send string payload
  | Receive client_ref
  | CloseCall client_ref

fun run_step :: "Lib \<Rightarrow> step \<Rightarrow> World \<Rightarrow> panic + World" where
  "run_step lib (Connect userID username) w = Handler userID username w"
| "run_step lib (Register c) w = Run_register c w"
| "run_step lib (Unregister c) w = Run_unregister c w"
| "run_step lib Broadcast w = Run_broadcast w"
| "run_step lib (Send userID message) w = Inr (world_of (SendToUser lib userID message w))"
| "run_step lib (Receive c) w = Inr (WritePump_receive c w)"
| "run_step lib (CloseCall c) w = Close c w"

fun run :: "Lib \<Rightarrow> step list \<Rightarrow> World \<Rightarrow> panic + World" where
  "run lib [] w = Inr w"
| "run lib (s # ss) w =
     (case run_step lib s w of Inl p \<Rightarrow> Inl p | Inr w' \<Rightarrow> run lib ss w')"

text \<open>Only the registry calls \<^verbatim>\<open>Close\<close>, and \<^verbatim>\<open>Handler\<close> registers a session once,
  when it is made.\<close>

fun hub_step :: "step \<Rightarrow> bool" where
  "hub_step (CloseCall c) = False"
| "hub_step (Register c) = False"
| "hub_step _ = True"

subsection \<open>Invariants\<close>

text \<open>The channel of a session is closed through its \<^verbatim>\<open>closeOnce\<close> and in no
  other way: the flag is set exactly when the channel is closed.\<close>

definition latch_inv :: "World \<Rightarrow> bool" where
  "latch_inv w = (\<forall>c. send_closed (heap w c) = closeOnce (heap w c))"

text \<open>Every session in the map is allocated, open, and filed under its own identity.\<close>

definition hub_inv :: "World \<Rightarrow> bool" where
  "hub_inv w = (latch_inv w \<and>
     (\<forall>u c. clients (hub w) u = Some c \<longrightarrow>
        c < next_ref w \<and> UserID (heap w c) = u \<and> \<not> closeOnce (heap w c)))"

text \<open>The value a call returned, if it did return.\<close>

fun return_value :: "'a outcome \<Rightarrow> 'a option" where
  "return_value (Returned r w) = Some r"
| "return_value (Blocked w) = None"

text \<open>The \<^verbatim>\<open>SendToUser\<close> calls of a history, in order: recipient and event.\<close>

fun sends :: "event list \<Rightarrow> (string \<times> payload) list" where
  "sends [] = []"
| "sends (Called_SendToUser u m # es) = (u, m) # sends es"
| "sends (e # es) = sends es"

definition recipients :: "event list \<Rightarrow> string list" where
  "recipients es = map fst (sends es)"

text \<open>The calls a handler added to the history it started from.\<close>

definition new_events :: "World \<Rightarrow> 'a outcome \<Rightarrow> event list" where
  "new_events w r = drop (length (history w)) (history (world_of r))"

text \<open>The participants of a conversation: the rows of \<^verbatim>\<open>conversation_participants\<close>.\<close>

definition participants :: "string \<Rightarrow> DB \<Rightarrow> string list" where
  "participants conversationID d =
     map snd (filter (\<lambda>row. fst row = conversationID) (conversation_participants d))"

text \<open>The two \<^verbatim>\<open>REFERENCES\<close> constraints of \<^verbatim>\<open>conversation_participants\<close>.\<close>

definition foreign_keys :: "DB \<Rightarrow> bool" where
  "foreign_keys d =
     list_all (\<lambda>row. fst row \<in> set (map fst (conversations d))
                     \<and> snd row \<in> set (map fst (users d)))
       (conversation_participants d)"

subsection \<open>A small deployment, for concrete runs\<close>

definition example_lib :: Lib where
  "example_lib =
     \<lparr> json_Marshal = (\<lambda>m. case m of Chat c \<Rightarrow> Inr (''message:'' @ chat_Content c)
                                   | Typing t \<Rightarrow> Inr ''typing''),
       time_Format_RFC3339 = (\<lambda>t. ''2024-01-01T00:00:00Z'') \<rparr>"

text \<open>Three users; \<open>c1\<close> is a chat of alice and bob, \<open>c2\<close> has all three in it.\<close>

definition example_db :: DB where
  "example_db =
     \<lparr> users = [(''u1'', ''alice''), (''u2'', ''bob''), (''u3'', ''carol'')],
       conversations = [(''c1'', 10), (''c2'', 20)],
       conversation_participants =
         [(''c1'', ''u1''), (''c1'', ''u2''),
          (''c2'', ''u1''), (''c2'', ''u2''), (''c2'', ''u3'')],
       messages = [],
       query_fails = (\<lambda>q. False),
       gen_random_uuid = (\<lambda>n. replicate (Suc n) CHR ''m''),
       now = 100 \<rparr>"

definition initial_world :: World where
  "initial_world =
     \<lparr> heap = (\<lambda>c. NewClient [] []), next_ref = 0, hub = NewHub, db = example_db,
       log_lines = [], history = [] \<rparr>"

text \<open>alice (session 0), bob (session 1) and carol (session 2) are connected.\<close>

definition example_world :: World where
  "example_world =
     \<lparr> heap = (\<lambda>c. NewClient [] [])
                (0 := NewClient ''u1'' ''alice'', 1 := NewClient ''u2'' ''bob'',
                 2 := NewClient ''u3'' ''carol''),
       next_ref = 3,
       hub = \<lparr> clients = [''u1'' \<mapsto> 0, ''u2'' \<mapsto> 1, ''u3'' \<mapsto> 2], broadcast = [] \<rparr>,
       db = example_db, log_lines = [], history = [] \<rparr>"

text \<open>bob's session with a buffer of capacity one that holds one frame.\<close>

definition full_world :: World where
  "full_world =
     example_world\<lparr> heap := (heap example_world)
       (1 := (NewClient ''u2'' ''bob'')\<lparr> send := [''x''], send_cap := 1 \<rparr>) \<rparr>"

text \<open>Two sessions of alice that no one has registered yet.\<close>

definition two_sessions_world :: World where
  "two_sessions_world =
     initial_world\<lparr> heap := (heap initial_world)
                       (0 := NewClient ''u1'' ''alice'', 1 := NewClient ''u1'' ''alice''),
                     next_ref := 2 \<rparr>"

text \<open>The first of the two has been registered and then superseded by the second.\<close>

definition superseded_world :: World where
  "superseded_world =
     two_sessions_world\<lparr> heap := (heap two_sessions_world)
         (0 := (NewClient ''u1'' ''alice'')\<lparr> send_closed := True, closeOnce := True \<rparr>),
       hub := \<lparr> clients = [''u1'' \<mapsto> 1], broadcast = [] \<rparr> \<rparr>"

text \<open>A \<^verbatim>\<open>json.Marshal\<close> that rejects every typing event.\<close>

definition failing_lib :: Lib where
  "failing_lib =
     example_lib\<lparr> json_Marshal := (\<lambda>m. case m of Chat c \<Rightarrow> Inr (''message:'' @ chat_Content c)
                                                | Typing t \<Rightarrow> Inl ''json: unsupported value'') \<rparr>"

definition example_typing :: payload where
  "example_typing =
     Typing \<lparr> typing_Type = ''typing'', typing_ConversationID = ''c1'',
              typing_UserID = ''u1'', typing_Username = ''alice'', typing_IsTyping = True \<rparr>"

definition chat_frame :: "string \<Rightarrow> string \<Rightarrow> IncomingMessage" where
  "chat_frame conversationID content =
     \<lparr> in_Type = ''message'', in_ConversationID = conversationID,
       in_Content = content, in_IsTyping = False \<rparr>"

definition typing_frame :: "string \<Rightarrow> IncomingMessage" where
  "typing_frame conversationID =
     \<lparr> in_Type = ''typing'', in_ConversationID = conversationID,
       in_Content = [], in_IsTyping = True \<rparr>"

text \<open>What one Close leaves behind, as far as the other lemmas need it.\<close>

definition closes :: "client_ref \<Rightarrow> World \<Rightarrow> World \<Rightarrow> bool" where
  "closes c w w' = (hub w' = hub w \<and> db w' = db w \<and> next_ref w' = next_ref w
     \<and> history w' = history w \<and> latch_inv w'
     \<and> send_closed (heap w' c) \<and> closeOnce (heap w' c)
     \<and> UserID (heap w' c) = UserID (heap w c) \<and> Username (heap w' c) = Username (heap w c)
     \<and> (\<forall>k. k \<noteq> c \<longrightarrow> heap w' k = heap w k)
     \<and> (closeOnce (heap w c) \<longrightarrow> w' = w))"

section \<open>Properties of sessions and of the hub\<close>

lemma log_Printf_fields [simp]:
  "heap (log_Printf l w) = heap w"
  "hub (log_Printf l w) = hub w"
  "db (log_Printf l w) = db w"
  "next_ref (log_Printf l w) = next_ref w"
  "history (log_Printf l w) = history w"
  "log_lines (log_Printf l w) = log_lines w @ [l]"
  by (simp_all add: log_Printf_def)

lemma record_event_fields [simp]:
  "heap (record_event e w) = heap w"
  "hub (record_event e w) = hub w"
  "db (record_event e w) = db w"
  "next_ref (record_event e w) = next_ref w"
  "log_lines (record_event e w) = log_lines w"
  "history (record_event e w) = history w @ [e]"
  by (simp_all add: record_event_def)

lemma latch_inv_log [simp]: "latch_inv (log_Printf l w) = latch_inv w"
  by (simp add: latch_inv_def)

lemma latch_inv_event [simp]: "latch_inv (record_event e w) = latch_inv w"
  by (simp add: latch_inv_def)

lemma latch_inv_hub [simp]: "latch_inv (w\<lparr> hub := h \<rparr>) = latch_inv w"
  by (simp add: latch_inv_def)

lemma Close_eq:
  "Close c w =
     (if closeOnce (heap w c) then Inr w
      else if send_closed (heap w c) then Inl CloseOfClosedChannel
      else Inr (log_Printf (''Closing send channel for client: '' @ UserID (heap w c)) w
                 \<lparr> heap := (heap w)(c := (heap w c)\<lparr> send_closed := True, closeOnce := True \<rparr>) \<rparr>))"
  by (simp add: Close_def close_chan_def Let_def)

lemma Close_closes:
  assumes "latch_inv w"
  shows "\<exists>w'. Close c w = Inr w' \<and> closes c w w'"
  using assms by (auto simp: Close_eq latch_inv_def closes_def)

lemma register_close_old_latch:
  assumes "latch_inv w"
  shows "\<exists>w1. register_close_old c w = Inr w1 \<and> hub w1 = hub w \<and> db w1 = db w
           \<and> next_ref w1 = next_ref w \<and> history w1 = history w \<and> latch_inv w1
           \<and> (\<forall>k. UserID (heap w1 k) = UserID (heap w k) \<and> Username (heap w1 k) = Username (heap w k)
                   \<and> (send_closed (heap w k) \<longrightarrow> send_closed (heap w1 k)))
           \<and> (\<forall>k. clients (hub w) (UserID (heap w c)) \<noteq> Some k \<longrightarrow> heap w1 k = heap w k)
           \<and> (\<forall>old. clients (hub w) (UserID (heap w c)) = Some old
                 \<longrightarrow> send_closed (heap w1 old) \<and> closeOnce (heap w1 old))"
proof (cases "clients (hub w) (UserID (heap w c))")
  case None
  then show ?thesis using assms by (simp add: register_close_old_def Let_def)
next
  case (Some old)
  let ?w1 = "log_Printf (''Replacing existing client for: '' @ UserID (heap w c))
               (log_Printf (''Register request for: '' @ Username (heap w c)
                            @ '' ('' @ UserID (heap w c) @ '')'') w)"
  have "latch_inv ?w1" using assms by simp
  from Close_closes[OF this, of old] obtain w' where
    w': "Close old ?w1 = Inr w'" "closes old ?w1 w'" by blast
  have "register_close_old c w = Inr w'"
    using Some w' by (simp add: register_close_old_def Let_def)
  moreover have "\<forall>k. heap w' k = heap w k \<or> k = old"
    using w'(2) by (auto simp: closes_def)
  ultimately show ?thesis using w'(2) Some
    apply (simp add: closes_def)
    by (metis log_Printf_fields(1))
qed


lemma register_store_fields [simp]:
  "heap (register_store c w) = heap w"
  "db (register_store c w) = db w"
  "next_ref (register_store c w) = next_ref w"
  "history (register_store c w) = history w"
  "clients (hub (register_store c w)) = (clients (hub w))(UserID (heap w c) \<mapsto> c)"
  "broadcast (hub (register_store c w)) = broadcast (hub w)"
  by (simp_all add: register_store_def)

lemma latch_inv_register_store [simp]: "latch_inv (register_store c w) = latch_inv w"
  by (simp add: latch_inv_def)

lemma Run_register_latch:
  assumes "latch_inv w"
  shows "\<exists>w1. register_close_old c w = Inr w1 \<and> Run_register c w = Inr (register_store c w1)
           \<and> hub w1 = hub w \<and> db w1 = db w
           \<and> next_ref w1 = next_ref w \<and> history w1 = history w \<and> latch_inv w1
           \<and> (\<forall>k. UserID (heap w1 k) = UserID (heap w k) \<and> Username (heap w1 k) = Username (heap w k)
                   \<and> (send_closed (heap w k) \<longrightarrow> send_closed (heap w1 k)))
           \<and> (\<forall>k. clients (hub w) (UserID (heap w c)) \<noteq> Some k \<longrightarrow> heap w1 k = heap w k)
           \<and> (\<forall>old. clients (hub w) (UserID (heap w c)) = Some old
                 \<longrightarrow> send_closed (heap w1 old) \<and> closeOnce (heap w1 old))"
proof -
  from register_close_old_latch[OF assms, of c] obtain w1 where
    w1: "register_close_old c w = Inr w1" and rest: "hub w1 = hub w \<and> db w1 = db w
           \<and> next_ref w1 = next_ref w \<and> history w1 = history w \<and> latch_inv w1
           \<and> (\<forall>k. UserID (heap w1 k) = UserID (heap w k) \<and> Username (heap w1 k) = Username (heap w k)
                   \<and> (send_closed (heap w k) \<longrightarrow> send_closed (heap w1 k)))
           \<and> (\<forall>k. clients (hub w) (UserID (heap w c)) \<noteq> Some k \<longrightarrow> heap w1 k = heap w k)
           \<and> (\<forall>old. clients (hub w) (UserID (heap w c)) = Some old
                 \<longrightarrow> send_closed (heap w1 old) \<and> closeOnce (heap w1 old))"
    by blast
  have "Run_register c w = Inr (register_store c w1)"
    using w1 by (simp add: Run_register_def)
  with w1 rest show ?thesis by blast
qed

lemma run_append:
  "run lib (xs @ ys) w = (case run lib xs w of Inl p \<Rightarrow> Inl p | Inr w' \<Rightarrow> run lib ys w')"
  by (induction xs arbitrary: w) (auto split: sum.splits)

lemma run_registers_ok:
  assumes "latch_inv w"
  shows "\<exists>w0. run lib (map Register qs) w = Inr w0 \<and> latch_inv w0
           \<and> (\<forall>k. UserID (heap w0 k) = UserID (heap w k))
           \<and> (\<forall>k. send_closed (heap w k) \<longrightarrow> send_closed (heap w0 k))"
  using assms
proof (induction qs arbitrary: w)
  case Nil
  then show ?case by simp
next
  case (Cons c qs)
  from Run_register_latch[OF Cons.prems, of c] obtain w1 where
    r: "Run_register c w = Inr (register_store c w1)" and l: "latch_inv w1"
    and u: "\<forall>k. UserID (heap w1 k) = UserID (heap w k)"
    and s: "\<forall>k. send_closed (heap w k) \<longrightarrow> send_closed (heap w1 k)"
    by blast
  have "latch_inv (register_store c w1)" using l by simp
  from Cons.IH[OF this] obtain w0 where
    "run lib (map Register qs) (register_store c w1) = Inr w0" "latch_inv w0"
    "\<forall>k. UserID (heap w0 k) = UserID (heap (register_store c w1) k)"
    "\<forall>k. send_closed (heap (register_store c w1) k) \<longrightarrow> send_closed (heap w0 k)"
    by blast
  then show ?case using r u s by simp
qed

lemma registers_last:
  assumes "latch_inv w" and "\<forall>c\<in>set ps. UserID (heap w c) = u" and "ps \<noteq> []"
  shows "\<exists>w'. run lib (map Register ps) w = Inr w' \<and> latch_inv w'
           \<and> clients (hub w') u = Some (last ps)
           \<and> (\<forall>k. send_closed (heap w k) \<longrightarrow> send_closed (heap w' k))
           \<and> (\<forall>c\<in>set (butlast ps). send_closed (heap w' c))
           \<and> (\<forall>old. clients (hub w) u = Some old \<longrightarrow> send_closed (heap w' old))"
  using assms
proof (induction ps arbitrary: w)
  case Nil
  then show ?case by simp
next
  case (Cons c ps)
  have uc: "UserID (heap w c) = u" using Cons.prems(2) by simp
  from Run_register_latch[OF Cons.prems(1), of c] obtain w1 where
    r: "Run_register c w = Inr (register_store c w1)" and l: "latch_inv w1"
    and h: "hub w1 = hub w"
    and u: "\<forall>k. UserID (heap w1 k) = UserID (heap w k)"
    and s: "\<forall>k. send_closed (heap w k) \<longrightarrow> send_closed (heap w1 k)"
    and o: "\<forall>old. clients (hub w) (UserID (heap w c)) = Some old \<longrightarrow> send_closed (heap w1 old)"
    by blast
  let ?w2 = "register_store c w1"
  have l2: "latch_inv ?w2" using l by simp
  have c2: "clients (hub ?w2) u = Some c" using u uc by simp
  show ?case
  proof (cases "ps = []")
    case True
    then show ?thesis using r l2 c2 s o uc by simp
  next
    case False
    have "\<forall>c\<in>set ps. UserID (heap ?w2 c) = u" using Cons.prems(2) u by simp
    from Cons.IH[OF l2 this False] obtain w' where
      w': "run lib (map Register ps) ?w2 = Inr w'" "latch_inv w'"
      "clients (hub w') u = Some (last ps)"
      "\<forall>k. send_closed (heap ?w2 k) \<longrightarrow> send_closed (heap w' k)"
      "\<forall>c\<in>set (butlast ps). send_closed (heap w' c)"
      "\<forall>old. clients (hub ?w2) u = Some old \<longrightarrow> send_closed (heap w' old)"
      by blast
    have "send_closed (heap w' c)" using w'(6) c2 by blast
    then show ?thesis using r w' s o uc False by simp
  qed
qed

text \<open>
  Claim C1.  For every sequence \<open>ps\<close> of registrations for one identity \<open>u\<close>: the run
  goes through without a panic; at its end the registry maps \<open>u\<close> to the session registered
  last, and every session registered earlier, and the session the registry held for \<open>u\<close> at
  the start, has its channel closed.  At each registration the session found in the map has
  been closed in the state \<open>w1\<close> in which the map is still the old one; the store into the
  map comes after it.
\<close>

theorem single_session_supersede:
  assumes "latch_inv w" and "\<forall>c\<in>set ps. UserID (heap w c) = u" and "ps \<noteq> []"
  shows "(\<exists>w'. run lib (map Register ps) w = Inr w'
            \<and> clients (hub w') u = Some (last ps)
            \<and> (\<forall>c\<in>set (butlast ps). send_closed (heap w' c))
            \<and> (\<forall>old. clients (hub w) u = Some old \<longrightarrow> send_closed (heap w' old)))
       \<and> (\<forall>qs c rs. ps = qs @ c # rs \<longrightarrow>
            (\<exists>w0 w1. run lib (map Register qs) w = Inr w0
               \<and> register_close_old c w0 = Inr w1
               \<and> clients (hub w1) = clients (hub w0)
               \<and> (\<forall>old. clients (hub w0) u = Some old \<longrightarrow> send_closed (heap w1 old))
               \<and> run lib (map Register (qs @ [c])) w = Inr (register_store c w1)
               \<and> clients (hub (register_store c w1)) u = Some c))"
proof (intro conjI allI impI)
  show "\<exists>w'. run lib (map Register ps) w = Inr w'
            \<and> clients (hub w') u = Some (last ps)
            \<and> (\<forall>c\<in>set (butlast ps). send_closed (heap w' c))
            \<and> (\<forall>old. clients (hub w) u = Some old \<longrightarrow> send_closed (heap w' old))"
    using registers_last[OF assms, of lib] by blast
next
  fix qs c rs
  assume ps: "ps = qs @ c # rs"
  from run_registers_ok[OF assms(1), of lib qs] obtain w0 where
    w0: "run lib (map Register qs) w = Inr w0" "latch_inv w0"
    "\<forall>k. UserID (heap w0 k) = UserID (heap w k)"
    by blast
  have uc: "UserID (heap w0 c) = u" using assms(2) ps w0(3) by simp
  from Run_register_latch[OF w0(2), of c] obtain w1 where
    w1: "register_close_old c w0 = Inr w1" "Run_register c w0 = Inr (register_store c w1)"
    "hub w1 = hub w0" "\<forall>k. UserID (heap w1 k) = UserID (heap w0 k)"
    "\<forall>old. clients (hub w0) (UserID (heap w0 c)) = Some old \<longrightarrow> send_closed (heap w1 old)"
    by blast
  have "run lib (map Register (qs @ [c])) w = Inr (register_store c w1)"
    using w0(1) w1(2) by (simp add: run_append)
  moreover have "clients (hub (register_store c w1)) u = Some c"
    using w1(4) uc by simp
  ultimately show "\<exists>w0 w1. run lib (map Register qs) w = Inr w0
               \<and> register_close_old c w0 = Inr w1
               \<and> clients (hub w1) = clients (hub w0)
               \<and> (\<forall>old. clients (hub w0) u = Some old \<longrightarrow> send_closed (heap w1 old))
               \<and> run lib (map Register (qs @ [c])) w = Inr (register_store c w1)
               \<and> clients (hub (register_store c w1)) u = Some c"
    using w0(1) w1(1,3,5) uc by auto
qed


theorem single_session_supersede_witness:
  "latch_inv two_sessions_world
   \<and> UserID (heap two_sessions_world 0) = ''u1''
   \<and> UserID (heap two_sessions_world 1) = ''u1''
   \<and> (\<exists>w'. run example_lib [Register 0, Register 1] two_sessions_world = Inr w'
          \<and> clients (hub w') ''u1'' = Some 1 \<and> send_closed (heap w' 0))"
proof -
  have h1: "latch_inv two_sessions_world"
    by (simp add: latch_inv_def two_sessions_world_def initial_world_def NewClient_def)
  have h2: "\<forall>c\<in>set [0, 1]. UserID (heap two_sessions_world c) = ''u1''"
    by (simp add: two_sessions_world_def initial_world_def NewClient_def)
  have h3: "[0, 1::nat] \<noteq> []" by simp
  from single_session_supersede[OF h1 h2 h3, of example_lib]
  have "\<exists>w'. run example_lib (map Register [0, 1]) two_sessions_world = Inr w'
          \<and> clients (hub w') ''u1'' = Some (last [0, 1])
          \<and> (\<forall>c\<in>set (butlast [0, 1]). send_closed (heap w' c))"
    by blast
  then show ?thesis using h1 h2 by simp
qed

lemma Run_unregister_stale:
  assumes "clients (hub w) (UserID (heap w a)) \<noteq> Some a"
  shows "Run_unregister a w =
           Inr (log_Printf (''Skipping unregister - client already replaced: '' @ UserID (heap w a))
                 (log_Printf (''Unregister request for: '' @ Username (heap w a)
                            @ '' ('' @ UserID (heap w a) @ '')'') w))"
  using assms by (simp add: Run_unregister_def Let_def)

lemma Run_unregister_active:
  assumes "latch_inv w" and "clients (hub w) (UserID (heap w a)) = Some a"
  shows "\<exists>w'. Run_unregister a w = Inr w' \<and> latch_inv w'
           \<and> clients (hub w') = (clients (hub w))(UserID (heap w a) := None)
           \<and> broadcast (hub w') = broadcast (hub w)
           \<and> db w' = db w \<and> next_ref w' = next_ref w \<and> history w' = history w
           \<and> send_closed (heap w' a) \<and> closeOnce (heap w' a)
           \<and> UserID (heap w' a) = UserID (heap w a)
           \<and> (\<forall>k. k \<noteq> a \<longrightarrow> heap w' k = heap w k)"
proof -
  let ?w1 = "log_Printf (''Unregister request for: '' @ Username (heap w a)
                            @ '' ('' @ UserID (heap w a) @ '')'') w"
  let ?w2 = "log_Printf (''Removing active client: '' @ UserID (heap w a)) ?w1"
  let ?w3 = "?w2\<lparr> hub := (hub ?w2)\<lparr> clients := (clients (hub ?w2))(UserID (heap w a) := None) \<rparr> \<rparr>"
  have "latch_inv ?w3" using assms(1) by simp
  from Close_closes[OF this, of a] obtain w4 where
    w4: "Close a ?w3 = Inr w4" "closes a ?w3 w4" by blast
  have "Run_unregister a w = Inr (log_Printf (''Client disconnected: '' @ Username (heap w4 a)
                                     @ '' ('' @ UserID (heap w4 a) @ '')'') w4)"
    using assms(2) w4(1) by (simp add: Run_unregister_def Let_def)
  then show ?thesis using w4(2) by (simp add: closes_def)
qed

text \<open>
  Claim C4.  In a state where the registry maps \<open>u\<close> to session \<open>b\<close>, an unregister of a
  session \<open>a\<close> other than \<open>b\<close> leaves the entry of \<open>u\<close> on \<open>b\<close> and leaves \<open>b\<close> as it
  was, so \<open>b\<close> is not closed; an unregister of a session that is not the one mapped under its
  identity changes neither the registry nor any session; the entry is removed, and the
  session closed, when the session unregistered is the one mapped.
\<close>

theorem stale_unregister_noop:
  assumes "latch_inv w" and "clients (hub w) u = Some b"
  shows "\<exists>w'. Run_unregister a w = Inr w'
           \<and> (a \<noteq> b \<longrightarrow> clients (hub w') u = Some b \<and> heap w' b = heap w b)
           \<and> (clients (hub w) (UserID (heap w a)) \<noteq> Some a \<longrightarrow> hub w' = hub w \<and> heap w' = heap w)
           \<and> (a = b \<and> UserID (heap w b) = u \<longrightarrow>
                 clients (hub w') u = None \<and> send_closed (heap w' b))"
proof (cases "clients (hub w) (UserID (heap w a)) = Some a")
  case False
  then show ?thesis using assms(2) by (auto simp: Run_unregister_stale)
next
  case True
  from Run_unregister_active[OF assms(1) True] obtain w' where
    w': "Run_unregister a w = Inr w'"
    "clients (hub w') = (clients (hub w))(UserID (heap w a) := None)"
    "send_closed (heap w' a)" "\<forall>k. k \<noteq> a \<longrightarrow> heap w' k = heap w k"
    by blast
  have "a \<noteq> b \<longrightarrow> UserID (heap w a) \<noteq> u" using True assms(2) by auto
  then show ?thesis using w' True assms(2) by auto
qed

lemma latch_inv_heap_new:
  "latch_inv w \<Longrightarrow> latch_inv (w\<lparr> heap := (heap w)(k := NewClient i n), next_ref := m \<rparr>)"
  by (simp add: latch_inv_def NewClient_def)

lemma Dispatch_heap:
  assumes "Dispatch m w = Inr w'"
  shows "hub w' = hub w \<and> next_ref w' = next_ref w \<and> db w' = db w \<and> history w' = history w
       \<and> (\<forall>k. send_closed (heap w' k) = send_closed (heap w k)
              \<and> closeOnce (heap w' k) = closeOnce (heap w k)
              \<and> UserID (heap w' k) = UserID (heap w k))"
  using assms by (auto simp: Dispatch_def split: option.splits if_splits)

lemma Dispatch_no_close_panic: "Dispatch m w \<noteq> Inl CloseOfClosedChannel"
  by (auto simp: Dispatch_def split: option.splits)

lemma Run_broadcast_heap:
  assumes "Run_broadcast w = Inr w'"
  shows "clients (hub w') = clients (hub w) \<and> next_ref w' = next_ref w
       \<and> db w' = db w \<and> history w' = history w
       \<and> (\<forall>k. send_closed (heap w' k) = send_closed (heap w k)
              \<and> closeOnce (heap w' k) = closeOnce (heap w k)
              \<and> UserID (heap w' k) = UserID (heap w k))"
proof (cases "broadcast (hub w)")
  case Nil
  then show ?thesis using assms by (simp add: Run_broadcast_def)
next
  case (Cons m rest)
  then have "Dispatch m (w\<lparr> hub := (hub w)\<lparr> broadcast := rest \<rparr> \<rparr>) = Inr w'"
    using assms by (simp add: Run_broadcast_def)
  from Dispatch_heap[OF this] show ?thesis by simp
qed

lemma SendToUser_heap:
  "heap (world_of (SendToUser lib u m w)) = heap w
   \<and> clients (hub (world_of (SendToUser lib u m w))) = clients (hub w)
   \<and> next_ref (world_of (SendToUser lib u m w)) = next_ref w
   \<and> db (world_of (SendToUser lib u m w)) = db w"
  by (simp add: SendToUser_def Let_def split: sum.splits)

lemma WritePump_receive_heap:
  "hub (WritePump_receive c w) = hub w \<and> next_ref (WritePump_receive c w) = next_ref w
   \<and> (\<forall>k. send_closed (heap (WritePump_receive c w) k) = send_closed (heap w k)
          \<and> closeOnce (heap (WritePump_receive c w) k) = closeOnce (heap w k)
          \<and> UserID (heap (WritePump_receive c w) k) = UserID (heap w k))"
  by (simp add: WritePump_receive_def split: list.splits)

lemma run_step_latch:
  assumes "latch_inv w"
  shows "run_step lib s w \<noteq> Inl CloseOfClosedChannel
       \<and> (\<forall>w'. run_step lib s w = Inr w' \<longrightarrow>
             latch_inv w' \<and> next_ref w \<le> next_ref w'
             \<and> (\<forall>c<next_ref w. send_closed (heap w c) \<longrightarrow> send_closed (heap w' c))
             \<and> (\<forall>c. s = CloseCall c \<longrightarrow> send_closed (heap w' c)))"
proof (cases s)
  case (Connect i n)
  let ?w0 = "w\<lparr> heap := (heap w)(next_ref w := NewClient i n), next_ref := Suc (next_ref w) \<rparr>"
  have "latch_inv ?w0" using assms by (rule latch_inv_heap_new)
  from Run_register_latch[OF this, of "next_ref w"] obtain w1 where
    "Run_register (next_ref w) ?w0 = Inr (register_store (next_ref w) w1)"
    "next_ref w1 = next_ref ?w0" "latch_inv w1"
    "\<forall>k. send_closed (heap ?w0 k) \<longrightarrow> send_closed (heap w1 k)"
    by blast
  then show ?thesis using Connect by (auto simp: Handler_def)
next
  case (Register c)
  from Run_register_latch[OF assms, of c] obtain w1 where
    "Run_register c w = Inr (register_store c w1)"
    "next_ref w1 = next_ref w" "latch_inv w1"
    "\<forall>k. send_closed (heap w k) \<longrightarrow> send_closed (heap w1 k)"
    by blast
  then show ?thesis using Register by auto
next
  case (Unregister c)
  show ?thesis
  proof (cases "clients (hub w) (UserID (heap w c)) = Some c")
    case True
    from Run_unregister_active[OF assms True] obtain w' where
      "Run_unregister c w = Inr w'" "latch_inv w'" "next_ref w' = next_ref w"
      "send_closed (heap w' c)" "\<forall>k. k \<noteq> c \<longrightarrow> heap w' k = heap w k"
      by blast
    then show ?thesis using Unregister by (auto; metis)
  next
    case False
    then show ?thesis using Unregister assms by (simp add: Run_unregister_stale)
  qed
next
  case Broadcast
  have "Run_broadcast w \<noteq> Inl CloseOfClosedChannel"
    by (auto simp: Run_broadcast_def Dispatch_no_close_panic split: list.splits)
  moreover have "\<And>w'. Run_broadcast w = Inr w' \<Longrightarrow> latch_inv w' \<and> next_ref w' = next_ref w
      \<and> (\<forall>c. send_closed (heap w' c) = send_closed (heap w c))"
    using Run_broadcast_heap assms by (simp add: latch_inv_def)
  ultimately show ?thesis using Broadcast by auto
next
  case (Send u m)
  then show ?thesis using assms SendToUser_heap[of lib u m w] by (simp add: latch_inv_def)
next
  case (Receive c)
  then show ?thesis using assms WritePump_receive_heap[of c w] by (simp add: latch_inv_def)
next
  case (CloseCall c)
  from Close_closes[OF assms, of c] obtain w' where
    "Close c w = Inr w'" "closes c w w'" by blast
  then show ?thesis using CloseCall by (auto simp: closes_def; metis)
qed

lemma run_latch:
  assumes "latch_inv w"
  shows "run lib ss w \<noteq> Inl CloseOfClosedChannel
       \<and> (\<forall>w'. run lib ss w = Inr w' \<longrightarrow>
             latch_inv w' \<and> next_ref w \<le> next_ref w'
             \<and> (\<forall>c<next_ref w. (send_closed (heap w c) \<or> CloseCall c \<in> set ss)
                    \<longrightarrow> send_closed (heap w' c)))"
  using assms
proof (induction ss arbitrary: w)
  case Nil
  then show ?case by simp
next
  case (Cons s ss)
  note st = run_step_latch[OF Cons.prems, of lib s]
  show ?case
  proof (cases "run_step lib s w")
    case (Inl p)
    then show ?thesis using st by simp
  next
    case (Inr w1)
    then have l1: "latch_inv w1" and n1: "next_ref w \<le> next_ref w1"
      and c1: "\<forall>c<next_ref w. send_closed (heap w c) \<longrightarrow> send_closed (heap w1 c)"
      and k1: "\<forall>c. s = CloseCall c \<longrightarrow> send_closed (heap w1 c)"
      using st by auto
    note ih = Cons.IH[OF l1]
    show ?thesis
    proof (intro conjI allI impI)
      show "run lib (s # ss) w \<noteq> Inl CloseOfClosedChannel" using Inr ih by simp
    next
      fix w' assume "run lib (s # ss) w = Inr w'"
      then have r: "run lib ss w1 = Inr w'" using Inr by simp
      then show "latch_inv w'" using ih by blast
      show "next_ref w \<le> next_ref w'" using ih r n1 by auto
    next
      fix w' c assume "run lib (s # ss) w = Inr w'" and c: "c < next_ref w"
        and d: "send_closed (heap w c) \<or> CloseCall c \<in> set (s # ss)"
      then have r: "run lib ss w1 = Inr w'" using Inr by simp
      have "c < next_ref w1" using c n1 by simp
      moreover have "send_closed (heap w1 c) \<or> CloseCall c \<in> set ss"
        using d c c1 k1 by auto
      ultimately show "send_closed (heap w' c)" using ih r by blast
    qed
  qed
qed

lemma Close_fixed:
  assumes "Close c w = Inr w"
  shows "run lib (replicate n (CloseCall c)) w = Inr w"
  using assms by (induction n) simp_all

lemma Close_again:
  assumes "latch_inv w"
  shows "run lib (replicate (Suc n) (CloseCall c)) w = Close c w"
proof -
  from Close_closes[OF assms, of c] obtain w' where
    w': "Close c w = Inr w'" "closes c w w'" by blast
  have "Close c w' = Inr w'" using w'(2) by (simp add: Close_eq closes_def)
  from Close_fixed[OF this, of lib n] show ?thesis using w'(1) by simp
qed

text \<open>
  Claim C8.  From a state in which every channel is closed exactly when its once-flag is
  set, no sequence of steps, with calls of \<open>Close\<close> from anywhere among the registry's own,
  ever closes a closed channel (which would panic); a session closed at some point of the
  run is closed at its end; and any number of \<open>Close\<close> calls on a session does what one
  call does, which closes its channel.
\<close>

theorem idempotent_closure:
  assumes "latch_inv w"
  shows "run lib ss w \<noteq> Inl CloseOfClosedChannel
       \<and> (\<forall>w'. run lib ss w = Inr w' \<longrightarrow>
             latch_inv w'
             \<and> (\<forall>c<next_ref w. (send_closed (heap w c) \<or> CloseCall c \<in> set ss)
                    \<longrightarrow> send_closed (heap w' c)))
       \<and> (\<forall>c n. run lib (replicate (Suc n) (CloseCall c)) w = Close c w
             \<and> (\<exists>w'. Close c w = Inr w' \<and> send_closed (heap w' c)))"
proof -
  have "\<exists>w'. Close c w = Inr w' \<and> send_closed (heap w' c)" for c
    using Close_closes[OF assms, of c] by (auto simp: closes_def)
  then show ?thesis using run_latch[OF assms, of lib ss] Close_again[OF assms] by blast
qed



lemma SendToUser_room:
  assumes "length (broadcast (hub w)) < broadcast_cap"
  shows "\<exists>r w'. SendToUser lib u p w = Returned r w'"
  using assms by (simp add: SendToUser_def Let_def split: sum.splits)


lemma hub_inv_log [simp]: "hub_inv (log_Printf l w) = hub_inv w"
  by (simp add: hub_inv_def)

lemma run_step_hub_inv:
  assumes "hub_inv w" and "hub_step s"
  shows "\<exists>w'. run_step lib s w = Inr w' \<and> hub_inv w'"
proof (cases s)
  case (Connect i n)
  let ?c = "next_ref w"
  let ?w0 = "w\<lparr> heap := (heap w)(?c := NewClient i n), next_ref := Suc ?c \<rparr>"
  have l0: "latch_inv ?w0" using assms(1) by (simp add: hub_inv_def latch_inv_heap_new)
  from Run_register_latch[OF this, of ?c] obtain w1 where
    r: "Run_register ?c ?w0 = Inr (register_store ?c w1)"
    and f: "hub w1 = hub ?w0" "next_ref w1 = next_ref ?w0" "latch_inv w1"
    and u: "\<forall>k. UserID (heap w1 k) = UserID (heap ?w0 k)"
    and k: "\<forall>k. clients (hub ?w0) (UserID (heap ?w0 ?c)) \<noteq> Some k \<longrightarrow> heap w1 k = heap ?w0 k"
    by blast
  have m: "\<And>v k. clients (hub w) v = Some k \<Longrightarrow> k < ?c \<and> UserID (heap w k) = v \<and> \<not> closeOnce (heap w k)"
    using assms(1) by (simp add: hub_inv_def)
  have new: "heap w1 ?c = NewClient i n"
  proof -
    have "clients (hub ?w0) (UserID (heap ?w0 ?c)) \<noteq> Some ?c" using m by auto
    then show ?thesis using k by simp
  qed
  have other: "heap w1 k = heap w k" if "clients (hub w) v = Some k" "v \<noteq> i" for v k
  proof -
    have "k \<noteq> ?c" using m[OF that(1)] by simp
    moreover have "clients (hub ?w0) (UserID (heap ?w0 ?c)) \<noteq> Some k"
      using m[OF that(1)] that(2) m by (auto simp: NewClient_def)
    ultimately show ?thesis using k by simp
  qed
  have ui: "UserID (heap w1 ?c) = i" using new by (simp add: NewClient_def)
  have "hub_inv (register_store ?c w1)"
    unfolding hub_inv_def
  proof (intro conjI allI impI)
    show "latch_inv (register_store ?c w1)" using f by simp
  next
    fix v k assume a: "clients (hub (register_store ?c w1)) v = Some k"
    show "k < next_ref (register_store ?c w1)"
      using a f ui m by (auto split: if_splits simp: less_Suc_eq)
    show "UserID (heap (register_store ?c w1) k) = v"
      using a f ui m other by (auto split: if_splits)
    show "\<not> closeOnce (heap (register_store ?c w1) k)"
      using a f ui m other new by (auto split: if_splits simp: NewClient_def)
  qed
  then show ?thesis using Connect r by (simp add: Handler_def)
next
  case (Register c)
  then show ?thesis using assms(2) by simp
next
  case (Unregister c)
  show ?thesis
  proof (cases "clients (hub w) (UserID (heap w c)) = Some c")
    case True
    have "latch_inv w" using assms(1) by (simp add: hub_inv_def)
    from Run_unregister_active[OF this True] obtain w' where
      w': "Run_unregister c w = Inr w'" "latch_inv w'"
      "clients (hub w') = (clients (hub w))(UserID (heap w c) := None)"
      "next_ref w' = next_ref w"
      "\<forall>k. k \<noteq> c \<longrightarrow> heap w' k = heap w k"
      by blast
    have m: "\<And>v k. clients (hub w) v = Some k \<Longrightarrow> k < next_ref w \<and> UserID (heap w k) = v \<and> \<not> closeOnce (heap w k)"
      using assms(1) by (simp add: hub_inv_def)
    have "hub_inv w'"
      unfolding hub_inv_def
    proof (intro conjI allI impI)
      show "latch_inv w'" by (rule w'(2))
    next
      fix v k assume a: "clients (hub w') v = Some k"
      then have b: "clients (hub w) v = Some k" "v \<noteq> UserID (heap w c)"
        using w'(3) by (auto split: if_splits)
      then have "k \<noteq> c" using m[OF b(1)] by auto
      then have "heap w' k = heap w k" using w'(5) by simp
      then show "k < next_ref w'" "UserID (heap w' k) = v" "\<not> closeOnce (heap w' k)"
        using m[OF b(1)] w'(4) by simp_all
    qed
    then show ?thesis using Unregister w'(1) by simp
  next
    case False
    then show ?thesis using Unregister assms(1) by (simp add: Run_unregister_stale)
  qed
next
  case Broadcast
  show ?thesis
  proof (cases "broadcast (hub w)")
    case Nil
    then show ?thesis using Broadcast assms(1) by (simp add: Run_broadcast_def)
  next
    case (Cons m rest)
    let ?w0 = "w\<lparr> hub := (hub w)\<lparr> broadcast := rest \<rparr> \<rparr>"
    have i0: "hub_inv ?w0" using assms(1) by (simp add: hub_inv_def)
    have "\<exists>w'. Dispatch m ?w0 = Inr w' \<and> hub_inv w'"
    proof (cases "clients (hub ?w0) (RecipientID m)")
      case None
      then show ?thesis using i0 by (simp add: Dispatch_def)
    next
      case (Some c)
      then have "\<not> send_closed (heap ?w0 c)"
        using i0 by (auto simp: hub_inv_def latch_inv_def)
      then show ?thesis using Some i0
        by (auto simp: Dispatch_def hub_inv_def latch_inv_def)
    qed
    then show ?thesis using Broadcast Cons by (simp add: Run_broadcast_def)
  qed
next
  case (Send u m)
  have "hub_inv (world_of (SendToUser lib u m w))"
    using assms(1) by (auto simp: SendToUser_def Let_def hub_inv_def latch_inv_def split: sum.splits)
  then show ?thesis using Send by simp
next
  case (Receive c)
  have "hub_inv (WritePump_receive c w)"
    using assms(1) by (auto simp: WritePump_receive_def hub_inv_def latch_inv_def split: list.splits)
  then show ?thesis using Receive by simp
next
  case (CloseCall c)
  then show ?thesis using assms(2) by simp
qed

lemma run_hub_inv:
  assumes "hub_inv w" and "list_all hub_step ss"
  shows "\<exists>w'. run lib ss w = Inr w' \<and> hub_inv w'"
  using assms
proof (induction ss arbitrary: w)
  case Nil
  then show ?case by simp
next
  case (Cons s ss)
  from run_step_hub_inv[of w s lib] Cons.prems obtain w1 where
    "run_step lib s w = Inr w1" "hub_inv w1" by auto
  then show ?case using Cons.IH[of w1] Cons.prems(2) by simp
qed

lemma hub_inv_initial: "hub_inv initial_world"
  by (simp add: hub_inv_def latch_inv_def initial_world_def NewHub_def NewClient_def)

text \<open>A caller waiting at the hub's full channel goes on after the hub's next receive.\<close>

lemma SendToUser_progress:
  assumes "hub_inv w" and "length (broadcast (hub w)) = broadcast_cap"
  shows "\<exists>w1. Run_broadcast w = Inr w1 \<and> hub_inv w1
           \<and> (\<exists>r w2. SendToUser lib u m w1 = Returned r w2)"
proof -
  from run_step_hub_inv[OF assms(1), of Broadcast lib] obtain w1 where
    w1: "Run_broadcast w = Inr w1" "hub_inv w1" by auto
  obtain x rest where xs: "broadcast (hub w) = x # rest"
    using assms(2) by (cases "broadcast (hub w)") (simp_all add: broadcast_cap_def)
  then have "Dispatch x (w\<lparr> hub := (hub w)\<lparr> broadcast := rest \<rparr> \<rparr>) = Inr w1"
    using w1(1) by (simp add: Run_broadcast_def)
  from Dispatch_heap[OF this] have "broadcast (hub w1) = rest" by simp
  then have "length (broadcast (hub w1)) < broadcast_cap"
    using xs assms(2) by simp
  from SendToUser_room[OF this] w1 show ?thesis by blast
qed

section \<open>Properties of the dispatch path and of the handlers\<close>

lemma SendToUser_eq:
  "SendToUser lib u m w =
     (case json_Marshal lib m of
        Inl err \<Rightarrow> Returned (Some err) (record_event (Called_SendToUser u m) w)
      | Inr data \<Rightarrow>
          (if length (broadcast (hub w)) < broadcast_cap
           then Returned None
                  ((record_event (Called_SendToUser u m) w)
                     \<lparr> hub := (hub w)\<lparr> broadcast := broadcast (hub w)
                             @ [\<lparr> RecipientID = u, Data = data \<rparr>] \<rparr> \<rparr>)
           else Blocked (record_event (Called_SendToUser u m) w)))"
  by (simp add: SendToUser_def Let_def split: sum.splits)

lemma SendToUser_world:
  "history (world_of (SendToUser lib u m w)) = history w @ [Called_SendToUser u m]
   \<and> db (world_of (SendToUser lib u m w)) = db w
   \<and> heap (world_of (SendToUser lib u m w)) = heap w
   \<and> log_lines (world_of (SendToUser lib u m w)) = log_lines w
   \<and> next_ref (world_of (SendToUser lib u m w)) = next_ref w
   \<and> clients (hub (world_of (SendToUser lib u m w))) = clients (hub w)"
  by (simp add: SendToUser_eq split: sum.splits)

text \<open>
  Claim C10.  \<open>SendToUser\<close> returns an error exactly when \<^verbatim>\<open>json.Marshal\<close> fails, and
  then the error is that one.  For an event that serialises it returns \<^verbatim>\<open>nil\<close> once the
  hub's channel takes the message; the value returned is the same for every registry and
  every state of the sessions' buffers; and it is \<^verbatim>\<open>nil\<close> also when the recipient is
  offline and the hub drops the message afterwards.
\<close>

theorem SendToUser_return_value:
  "((\<exists>e. return_value (SendToUser lib u m w) = Some (Some e)) \<longleftrightarrow> (\<exists>e. json_Marshal lib m = Inl e))
   \<and> (\<forall>e. json_Marshal lib m = Inl e \<longrightarrow>
          SendToUser lib u m w = Returned (Some e) (record_event (Called_SendToUser u m) w))
   \<and> (\<forall>d. json_Marshal lib m = Inr d \<longrightarrow> length (broadcast (hub w)) < broadcast_cap \<longrightarrow>
          (\<exists>w'. SendToUser lib u m w = Returned None w'
             \<and> broadcast (hub w') = broadcast (hub w) @ [\<lparr> RecipientID = u, Data = d \<rparr>]))
   \<and> (\<forall>h cl. return_value (SendToUser lib u m (w\<lparr> heap := h, hub := (hub w)\<lparr> clients := cl \<rparr> \<rparr>))
             = return_value (SendToUser lib u m w))
   \<and> (\<forall>d. json_Marshal lib m = Inr d \<longrightarrow> broadcast (hub w) = [] \<longrightarrow> clients (hub w) u = None \<longrightarrow>
          (\<exists>w1 w2. SendToUser lib u m w = Returned None w1 \<and> Run_broadcast w1 = Inr w2
             \<and> heap w2 = heap w \<and> broadcast (hub w2) = [] \<and> log_lines w2 = log_lines w))"
  by (auto simp: SendToUser_eq broadcast_cap_def Run_broadcast_def Dispatch_def split: sum.splits)

lemma participants_iff:
  "u \<in> set (participants cid d) \<longleftrightarrow> (cid, u) \<in> set (conversation_participants d)"
  by (force simp: participants_def)

lemma new_events_Returned:
  "history w' = history w @ es \<Longrightarrow> new_events w (Returned r w') = es"
  by (simp add: new_events_def)

text \<open>
  Claim C7.  When the sender of a chat frame is not a participant of the conversation, or
  the participation check fails, the handler returns after that one check: no
  \<^verbatim>\<open>CreateMessage\<close> call and no \<^verbatim>\<open>SendToUser\<close> call is made, the database, the hub and
  every session (the sender's too) are as before, and only a log line is written.
\<close>

theorem authorization_gate:
  assumes "query_fails (db w) (Query_IsUserInConversation (UserID (heap w c)) (in_ConversationID msg))
           \<or> UserID (heap w c) \<notin> set (participants (in_ConversationID msg) (db w))"
  shows "\<exists>w'. handleChatMessage lib c msg w = Returned () w'
           \<and> new_events w (handleChatMessage lib c msg w)
               = [Called_IsUserInConversation (UserID (heap w c)) (in_ConversationID msg)]
           \<and> db w' = db w \<and> hub w' = hub w \<and> heap w' = heap w
           \<and> log_lines w' = log_lines w @ [''User '' @ UserID (heap w c)
                 @ '' not in conversation '' @ in_ConversationID msg]"
  using assms
  by (auto simp: handleChatMessage_def Let_def IsUserInConversation_def participants_iff
        new_events_def)

text \<open>
  Claim C9.  When the sender of a typing frame is not a participant of the conversation, or
  the participation check fails, the handler returns after that one check, with no
  \<^verbatim>\<open>SendToUser\<close> call and nothing changed but the record of the check.
\<close>

theorem typing_gate:
  assumes "query_fails (db w) (Query_IsUserInConversation (UserID (heap w c)) (in_ConversationID msg))
           \<or> UserID (heap w c) \<notin> set (participants (in_ConversationID msg) (db w))"
  shows "handleTypingMessage lib c msg w
           = Returned () (record_event
               (Called_IsUserInConversation (UserID (heap w c)) (in_ConversationID msg)) w)
         \<and> new_events w (handleTypingMessage lib c msg w)
               = [Called_IsUserInConversation (UserID (heap w c)) (in_ConversationID msg)]
         \<and> sends (new_events w (handleTypingMessage lib c msg w)) = []"
  using assms
  by (auto simp: handleTypingMessage_def Let_def IsUserInConversation_def participants_iff
        new_events_def)

text \<open>The loop sends to the other user of the first row of the conversation, if any.\<close>

lemma send_to_other_find:
  "send_to_other lib cid m rows w =
     (case find (\<lambda>r. cwp_ID r = cid) rows of
        None \<Rightarrow> Returned () w
      | Some r \<Rightarrow> (case SendToUser lib (OtherUserID r) m w of
                     Returned _ w' \<Rightarrow> Returned () w'
                   | Blocked w' \<Rightarrow> Blocked w'))"
  by (induction rows) simp_all

lemma send_to_other_world:
  "\<exists>es. history (world_of (send_to_other lib cid m rows w)) = history w @ es
        \<and> (\<forall>e\<in>set es. \<exists>u. e = Called_SendToUser u m)
        \<and> db (world_of (send_to_other lib cid m rows w)) = db w
        \<and> heap (world_of (send_to_other lib cid m rows w)) = heap w"
proof (cases "find (\<lambda>r. cwp_ID r = cid) rows")
  case None
  then show ?thesis by (simp add: send_to_other_find)
next
  case (Some r)
  have "world_of (send_to_other lib cid m rows w) = world_of (SendToUser lib (OtherUserID r) m w)"
    using Some by (simp add: send_to_other_find split: outcome.splits)
  then show ?thesis using SendToUser_world[of lib "OtherUserID r" m w] by simp
qed

lemma sendToConversationParticipants_world:
  "\<exists>es. history (world_of (sendToConversationParticipants lib c cid m w))
           = history w @ Called_GetUserConversations (UserID (heap w c)) # es
        \<and> (\<forall>e\<in>set es. \<exists>u. e = Called_SendToUser u m)
        \<and> db (world_of (sendToConversationParticipants lib c cid m w)) = db w
        \<and> heap (world_of (sendToConversationParticipants lib c cid m w)) = heap w"
proof (cases "GetUserConversations (UserID (heap w c)) (db w)")
  case (Inl err)
  then show ?thesis by (simp add: sendToConversationParticipants_def Let_def)
next
  case (Inr rows)
  let ?w1 = "record_event (Called_GetUserConversations (UserID (heap w c))) w"
  from send_to_other_world[of lib cid m rows ?w1] obtain es where
    es: "history (world_of (send_to_other lib cid m rows ?w1)) = history ?w1 @ es"
    "\<forall>e\<in>set es. \<exists>u. e = Called_SendToUser u m"
    "db (world_of (send_to_other lib cid m rows ?w1)) = db ?w1"
    "heap (world_of (send_to_other lib cid m rows ?w1)) = heap ?w1"
    by blast
  show ?thesis
  proof (cases "send_to_other lib cid m rows ?w1")
    case (Blocked w2)
    then have "sendToConversationParticipants lib c cid m w = Blocked w2"
      using Inr by (simp add: sendToConversationParticipants_def Let_def)
    then show ?thesis using es Blocked by simp
  next
    case (Returned x w2)
    then have "world_of (sendToConversationParticipants lib c cid m w)
                 = world_of (SendToUser lib (UserID (heap w2 c)) m w2)"
      using Inr by (simp add: sendToConversationParticipants_def Let_def split: outcome.splits)
    then show ?thesis
      using es Returned SendToUser_world[of lib "UserID (heap w2 c)" m w2] by simp
  qed
qed

lemma handleChatMessage_persist_failed:
  assumes "IsUserInConversation (UserID (heap w c)) (in_ConversationID msg) (db w) = Inr True"
    and "CreateMessage (in_ConversationID msg) (UserID (heap w c)) (in_Content msg) (db w) = Inl e"
  shows "\<exists>w'. handleChatMessage lib c msg w = Returned () w'
           \<and> history w' = history w
               @ [Called_IsUserInConversation (UserID (heap w c)) (in_ConversationID msg),
                  Called_CreateMessage (in_ConversationID msg) (UserID (heap w c)) (in_Content msg),
                  Returned_CreateMessage False]
           \<and> db w' = db w \<and> hub w' = hub w \<and> heap w' = heap w"
  using assms by (simp add: handleChatMessage_def Let_def)

lemma handleChatMessage_persisted:
  assumes "IsUserInConversation (UserID (heap w c)) (in_ConversationID msg) (db w) = Inr True"
    and "CreateMessage (in_ConversationID msg) (UserID (heap w c)) (in_Content msg) (db w)
           = Inr (saved, d')"
  shows "handleChatMessage lib c msg w =
           sendToConversationParticipants lib c (in_ConversationID msg)
             (chat_payload lib (Username (heap w c)) saved)
             (record_event (Returned_CreateMessage True)
               (record_event (Called_CreateMessage (in_ConversationID msg) (UserID (heap w c))
                                (in_Content msg))
                 (record_event (Called_IsUserInConversation (UserID (heap w c))
                                  (in_ConversationID msg)) w)
                \<lparr> db := d' \<rparr>))"
  using assms by (simp add: handleChatMessage_def Let_def chat_payload_def)

lemma handleChatMessage_rejected:
  assumes "IsUserInConversation (UserID (heap w c)) (in_ConversationID msg) (db w) \<noteq> Inr True"
  shows "\<exists>w'. handleChatMessage lib c msg w = Returned () w'
           \<and> history w' = history w
               @ [Called_IsUserInConversation (UserID (heap w c)) (in_ConversationID msg)]
           \<and> db w' = db w \<and> hub w' = hub w \<and> heap w' = heap w"
  using assms
  by (cases "IsUserInConversation (UserID (heap w c)) (in_ConversationID msg) (db w)")
     (auto simp: handleChatMessage_def Let_def)

lemma sends_append [simp]: "sends (xs @ ys) = sends xs @ sends ys"
  by (induction xs rule: sends.induct) simp_all

text \<open>
  Claim C6.  In the calls a chat frame causes, every \<^verbatim>\<open>SendToUser\<close> call comes after the
  \<^verbatim>\<open>CreateMessage\<close> call and its successful return; the row is in the database by then
  and the event sent is made from it.  When \<^verbatim>\<open>CreateMessage\<close> fails there is no
  \<^verbatim>\<open>SendToUser\<close> call at all.
\<close>

theorem persist_before_dispatch:
  "history (world_of (handleChatMessage lib c msg w))
     = history w @ new_events w (handleChatMessage lib c msg w)
   \<and> (\<forall>pre u p post.
         new_events w (handleChatMessage lib c msg w) = pre @ Called_SendToUser u p # post \<longrightarrow>
           (\<exists>a b saved d'.
              pre = a @ Called_CreateMessage (in_ConversationID msg) (UserID (heap w c))
                          (in_Content msg) # Returned_CreateMessage True # b
              \<and> CreateMessage (in_ConversationID msg) (UserID (heap w c)) (in_Content msg) (db w)
                  = Inr (saved, d')
              \<and> db (world_of (handleChatMessage lib c msg w)) = d'
              \<and> p = chat_payload lib (Username (heap w c)) saved))
   \<and> ((\<exists>e. CreateMessage (in_ConversationID msg) (UserID (heap w c)) (in_Content msg) (db w)
              = Inl e)
        \<longrightarrow> sends (new_events w (handleChatMessage lib c msg w)) = []
            \<and> db (world_of (handleChatMessage lib c msg w)) = db w
            \<and> hub (world_of (handleChatMessage lib c msg w)) = hub w)"
proof -
  let ?u = "UserID (heap w c)" and ?cid = "in_ConversationID msg" and ?txt = "in_Content msg"
  let ?r = "handleChatMessage lib c msg w"
  consider (rejected) "IsUserInConversation ?u ?cid (db w) \<noteq> Inr True"
    | (failed) e where "IsUserInConversation ?u ?cid (db w) = Inr True"
        "CreateMessage ?cid ?u ?txt (db w) = Inl e"
    | (persisted) saved d' where "IsUserInConversation ?u ?cid (db w) = Inr True"
        "CreateMessage ?cid ?u ?txt (db w) = Inr (saved, d')"
    by (cases "CreateMessage ?cid ?u ?txt (db w)") auto
  then show ?thesis
  proof cases
    case rejected
    from handleChatMessage_rejected[OF this, of lib] obtain w' where
      "?r = Returned () w'" "history w' = history w @ [Called_IsUserInConversation ?u ?cid]"
      "db w' = db w" "hub w' = hub w"
      by blast
    then show ?thesis
      by (auto simp: new_events_def append_eq_Cons_conv Cons_eq_append_conv)
  next
    case failed
    from handleChatMessage_persist_failed[OF this, of lib] obtain w' where
      "?r = Returned () w'"
      "history w' = history w @ [Called_IsUserInConversation ?u ?cid,
                  Called_CreateMessage ?cid ?u ?txt, Returned_CreateMessage False]"
      "db w' = db w" "hub w' = hub w"
      by blast
    then show ?thesis
      by (auto simp: new_events_def append_eq_Cons_conv Cons_eq_append_conv)
  next
    case persisted
    let ?p = "chat_payload lib (Username (heap w c)) saved"
    let ?w3 = "record_event (Returned_CreateMessage True)
               (record_event (Called_CreateMessage ?cid ?u ?txt)
                 (record_event (Called_IsUserInConversation ?u ?cid) w)
                \<lparr> db := d' \<rparr>)"
    have r: "?r = sendToConversationParticipants lib c ?cid ?p ?w3"
      using handleChatMessage_persisted[OF persisted] .
    from sendToConversationParticipants_world[of lib c ?cid ?p ?w3] obtain es where
      es: "history (world_of ?r) = history ?w3 @ Called_GetUserConversations (UserID (heap ?w3 c)) # es"
      "\<forall>e\<in>set es. \<exists>u. e = Called_SendToUser u ?p"
      "db (world_of ?r) = db ?w3"
      unfolding r by blast
    have n: "new_events w ?r = [Called_IsUserInConversation ?u ?cid,
        Called_CreateMessage ?cid ?u ?txt, Returned_CreateMessage True,
        Called_GetUserConversations ?u] @ es"
      using es(1) by (simp add: new_events_def)
    have h: "history (world_of ?r) = history w @ new_events w ?r"
      using es(1) n by simp
    have d: "db (world_of ?r) = d'" using es(3) by simp
    have o: "\<exists>a b. pre = a @ Called_CreateMessage ?cid ?u ?txt # Returned_CreateMessage True # b
                  \<and> p = ?p"
      if "new_events w ?r = pre @ Called_SendToUser u p # post" for pre u p post
    proof -
      have "[Called_IsUserInConversation ?u ?cid,
        Called_CreateMessage ?cid ?u ?txt, Returned_CreateMessage True,
        Called_GetUserConversations ?u] @ es = pre @ Called_SendToUser u p # post"
        using that n by simp
      then obtain q where q: "pre = [Called_IsUserInConversation ?u ?cid,
        Called_CreateMessage ?cid ?u ?txt, Returned_CreateMessage True,
        Called_GetUserConversations ?u] @ q" "es = q @ Called_SendToUser u p # post"
        by (auto simp: append_eq_Cons_conv Cons_eq_append_conv append_eq_append_conv2)
      have "Called_SendToUser u p \<in> set es" using q(2) by simp
      then have "p = ?p" using es(2) by auto
      moreover have "pre = [Called_IsUserInConversation ?u ?cid]
          @ Called_CreateMessage ?cid ?u ?txt # Returned_CreateMessage True
          # (Called_GetUserConversations ?u # q)"
        using q(1) by simp
      ultimately show ?thesis by blast
    qed
    show ?thesis using h d o persisted(2) by auto
  qed
qed

lemma ReadPump_frame_message:
  "in_Type msg = ''message'' \<Longrightarrow> ReadPump_frame lib c msg w = handleChatMessage lib c msg w"
  by (simp add: ReadPump_frame_def)

lemma ReadPump_frame_typing:
  "in_Type msg = ''typing'' \<Longrightarrow> ReadPump_frame lib c msg w = handleTypingMessage lib c msg w"
  by (simp add: ReadPump_frame_def)

lemma ReadPump_frame_unknown:
  assumes "in_Type msg \<noteq> ''message''" and "in_Type msg \<noteq> ''typing''"
  shows "\<exists>w'. ReadPump_frame lib c msg w = Returned () w' \<and> history w' = history w
          \<and> hub w' = hub w \<and> db w' = db w \<and> heap w' = heap w"
  using assms by (simp add: ReadPump_frame_def)



lemma set_insert_desc [simp]: "set (insert_desc r xs) = insert r (set xs)"
  by (induction xs) auto

lemma set_order_by [simp]: "set (order_by_created_at_desc xs) = set xs"
  by (induction xs) auto






lemma participants_messages [simp]:
  "participants cid (d\<lparr> messages := ms \<rparr>) = participants cid d"
  by (simp add: participants_def)

lemma foreign_keys_messages [simp]:
  "foreign_keys (d\<lparr> messages := ms \<rparr>) = foreign_keys d"
  by (simp add: foreign_keys_def)


lemmas example_defs =
  example_world_def example_db_def example_lib_def chat_frame_def typing_frame_def
  NewClient_def handleChatMessage_def handleTypingMessage_def sendToConversationParticipants_def
  SendToUser_def IsUserInConversation_def CreateMessage_def GetUserConversations_def
  conversation_rows_def record_event_def log_Printf_def new_events_def recipients_def
  participants_def broadcast_cap_def chat_payload_def Let_def


text \<open>
  Claim C3 at a concrete input: in the conversation \<open>c1\<close> of alice and bob, a typing frame
  of alice is dispatched to bob and to alice herself.
\<close>

theorem typing_echoed_to_sender:
  "set (participants ''c1'' (db example_world)) = {''u1'', ''u2''}
   \<and> UserID (heap example_world 0) = ''u1''
   \<and> recipients (new_events example_world
        (handleTypingMessage example_lib 0 (typing_frame ''c1'') example_world))
       = [''u2'', ''u1'']"
  by (simp add: example_defs)

section \<open>The theorems at concrete runs\<close>

theorem stale_unregister_noop_witness:
  "latch_inv superseded_world \<and> clients (hub superseded_world) ''u1'' = Some 1
   \<and> (\<exists>w'. Run_unregister 0 superseded_world = Inr w'
          \<and> clients (hub w') ''u1'' = Some 1 \<and> heap w' 1 = heap superseded_world 1
          \<and> hub w' = hub superseded_world)
   \<and> (\<exists>w'. Run_unregister 1 superseded_world = Inr w'
          \<and> clients (hub w') ''u1'' = None \<and> send_closed (heap w' 1))"
proof -
  have h1: "latch_inv superseded_world"
    by (simp add: latch_inv_def superseded_world_def two_sessions_world_def initial_world_def
          NewClient_def)
  have h2: "clients (hub superseded_world) ''u1'' = Some 1"
    by (simp add: superseded_world_def)
  have s: "clients (hub superseded_world) (UserID (heap superseded_world 0)) \<noteq> Some 0"
    "UserID (heap superseded_world 1) = ''u1''"
    by (simp_all add: superseded_world_def two_sessions_world_def initial_world_def NewClient_def)
  show ?thesis
    using h1 h2 s stale_unregister_noop[OF h1 h2, of 0] stale_unregister_noop[OF h1 h2, of 1]
    by auto
qed

theorem idempotent_closure_witness:
  "latch_inv superseded_world
   \<and> (\<exists>w'. run example_lib [Unregister 1, CloseCall 1, Register 0, CloseCall 1, CloseCall 0]
             superseded_world = Inr w'
          \<and> send_closed (heap w' 0) \<and> send_closed (heap w' 1))
   \<and> run example_lib (replicate 3 (CloseCall 1)) superseded_world = Close 1 superseded_world"
proof -
  have h1: "latch_inv superseded_world"
    by (simp add: latch_inv_def superseded_world_def two_sessions_world_def initial_world_def
          NewClient_def)
  let ?ss = "[Unregister 1, CloseCall 1, Register 0, CloseCall 1, CloseCall 0]"
  note t = idempotent_closure[OF h1, of example_lib ?ss]
  have n: "next_ref superseded_world = 2"
    by (simp add: superseded_world_def two_sessions_world_def)
  have "\<exists>w'. run example_lib ?ss superseded_world = Inr w'"
    by (simp add: superseded_world_def two_sessions_world_def initial_world_def NewClient_def
          Run_unregister_def Run_register_def register_close_old_def register_store_def
          Close_eq log_Printf_def Let_def)
  then obtain w' where w': "run example_lib ?ss superseded_world = Inr w'" by blast
  from t w' have b: "\<forall>c<next_ref superseded_world.
      (send_closed (heap superseded_world c) \<or> CloseCall c \<in> set ?ss) \<longrightarrow> send_closed (heap w' c)"
    by blast
  have "CloseCall 0 \<in> set ?ss" "CloseCall 1 \<in> set ?ss"
    "0 < next_ref superseded_world" "1 < next_ref superseded_world"
    using n by simp_all
  with b have c: "send_closed (heap w' 0)" "send_closed (heap w' 1)"
    by blast+
  from t have "run example_lib (replicate (Suc 2) (CloseCall 1)) superseded_world
      = Close 1 superseded_world"
    by blast
  then have "run example_lib (replicate 3 (CloseCall 1)) superseded_world = Close 1 superseded_world"
    by (simp only: numeral_3_eq_3 Suc_1[symmetric] One_nat_def[symmetric])
  with c h1 w' show ?thesis by blast
qed


theorem authorization_gate_witness:
  "UserID (heap example_world 2) = ''u3''
   \<and> ''u3'' \<notin> set (participants ''c1'' (db example_world))
   \<and> (\<exists>w'. handleChatMessage example_lib 2 (chat_frame ''c1'' ''hi'') example_world = Returned () w'
          \<and> new_events example_world
               (handleChatMessage example_lib 2 (chat_frame ''c1'' ''hi'') example_world)
              = [Called_IsUserInConversation ''u3'' ''c1'']
          \<and> db w' = db example_world \<and> hub w' = hub example_world
          \<and> heap w' = heap example_world)"
proof -
  have u: "UserID (heap example_world 2) = ''u3''"
    "in_ConversationID (chat_frame ''c1'' ''hi'') = ''c1''"
    by (simp_all add: example_world_def NewClient_def chat_frame_def)
  have p: "''u3'' \<notin> set (participants ''c1'' (db example_world))"
    by (simp add: example_world_def example_db_def participants_def)
  have h: "query_fails (db example_world)
             (Query_IsUserInConversation (UserID (heap example_world 2))
                (in_ConversationID (chat_frame ''c1'' ''hi'')))
           \<or> UserID (heap example_world 2)
                \<notin> set (participants (in_ConversationID (chat_frame ''c1'' ''hi'')) (db example_world))"
    using u p by simp
  from authorization_gate[OF h, of example_lib] show ?thesis
    using u p by auto
qed

theorem typing_gate_witness:
  "UserID (heap example_world 2) = ''u3''
   \<and> ''u3'' \<notin> set (participants ''c1'' (db example_world))
   \<and> handleTypingMessage example_lib 2 (typing_frame ''c1'') example_world
       = Returned () (record_event (Called_IsUserInConversation ''u3'' ''c1'') example_world)
   \<and> sends (new_events example_world
        (handleTypingMessage example_lib 2 (typing_frame ''c1'') example_world)) = []"
proof -
  have u: "UserID (heap example_world 2) = ''u3''"
    "in_ConversationID (typing_frame ''c1'') = ''c1''"
    by (simp_all add: example_world_def NewClient_def typing_frame_def)
  have p: "''u3'' \<notin> set (participants ''c1'' (db example_world))"
    by (simp add: example_world_def example_db_def participants_def)
  have h: "query_fails (db example_world)
             (Query_IsUserInConversation (UserID (heap example_world 2))
                (in_ConversationID (typing_frame ''c1'')))
           \<or> UserID (heap example_world 2)
                \<notin> set (participants (in_ConversationID (typing_frame ''c1'')) (db example_world))"
    using u p by simp
  from typing_gate[OF h, of example_lib] show ?thesis
    using u p by auto
qed


theorem persist_before_dispatch_witness:
  "(\<exists>p. new_events example_world
            (handleChatMessage example_lib 0 (chat_frame ''c1'' ''hi'') example_world)
          = [Called_IsUserInConversation ''u1'' ''c1'', Called_CreateMessage ''c1'' ''u1'' ''hi'',
             Returned_CreateMessage True, Called_GetUserConversations ''u1'']
            @ Called_SendToUser ''u2'' p # [Called_SendToUser ''u1'' p]
        \<and> (\<exists>a b saved d'.
              [Called_IsUserInConversation ''u1'' ''c1'', Called_CreateMessage ''c1'' ''u1'' ''hi'',
               Returned_CreateMessage True, Called_GetUserConversations ''u1'']
                = a @ Called_CreateMessage ''c1'' ''u1'' ''hi'' # Returned_CreateMessage True # b
              \<and> CreateMessage ''c1'' ''u1'' ''hi'' (db example_world) = Inr (saved, d')
              \<and> db (world_of (handleChatMessage example_lib 0 (chat_frame ''c1'' ''hi'')
                      example_world)) = d'))"
proof -
  let ?r = "handleChatMessage example_lib 0 (chat_frame ''c1'' ''hi'') example_world"
  let ?pre = "[Called_IsUserInConversation ''u1'' ''c1'', Called_CreateMessage ''c1'' ''u1'' ''hi'',
             Returned_CreateMessage True, Called_GetUserConversations ''u1'']"
  have u: "UserID (heap example_world 0) = ''u1''"
    "in_ConversationID (chat_frame ''c1'' ''hi'') = ''c1''"
    "in_Content (chat_frame ''c1'' ''hi'') = ''hi''"
    by (simp_all add: example_world_def NewClient_def chat_frame_def)
  obtain p where n: "new_events example_world ?r
      = ?pre @ Called_SendToUser ''u2'' p # [Called_SendToUser ''u1'' p]"
    by (simp add: example_defs)
  from persist_before_dispatch[of example_lib 0 "chat_frame ''c1'' ''hi''" example_world]
  have "\<forall>pre u p post. new_events example_world ?r = pre @ Called_SendToUser u p # post \<longrightarrow>
           (\<exists>a b saved d'.
              pre = a @ Called_CreateMessage ''c1'' ''u1'' ''hi'' # Returned_CreateMessage True # b
              \<and> CreateMessage ''c1'' ''u1'' ''hi'' (db example_world) = Inr (saved, d')
              \<and> db (world_of ?r) = d'
              \<and> p = chat_payload example_lib (Username (heap example_world 0)) saved)"
    unfolding u by blast
  from this[rule_format, OF n] n show ?thesis by blast
qed

theorem SendToUser_return_value_witness:
  "json_Marshal failing_lib example_typing = Inl ''json: unsupported value''
   \<and> return_value (SendToUser failing_lib ''u2'' example_typing example_world)
       = Some (Some ''json: unsupported value'')
   \<and> json_Marshal example_lib example_typing = Inr ''typing''
   \<and> clients (hub example_world) ''u9'' = None
   \<and> (\<exists>w1 w2. SendToUser example_lib ''u9'' example_typing example_world = Returned None w1
          \<and> Run_broadcast w1 = Inr w2 \<and> heap w2 = heap example_world
          \<and> broadcast (hub w2) = [])
   \<and> return_value (SendToUser example_lib ''u2'' example_typing full_world) = Some None"
proof -
  have m1: "json_Marshal failing_lib example_typing = Inl ''json: unsupported value''"
    by (simp add: failing_lib_def example_lib_def example_typing_def)
  have m2: "json_Marshal example_lib example_typing = Inr ''typing''"
    by (simp add: example_lib_def example_typing_def)
  have e: "broadcast (hub example_world) = []" "clients (hub example_world) ''u9'' = None"
    "length (broadcast (hub full_world)) < broadcast_cap"
    by (simp_all add: example_world_def full_world_def broadcast_cap_def)
  note t1 = SendToUser_return_value[of failing_lib "''u2''" example_typing example_world]
  note t2 = SendToUser_return_value[of example_lib "''u9''" example_typing example_world]
  note t3 = SendToUser_return_value[of example_lib "''u2''" example_typing full_world]
  from t1 m1 have "SendToUser failing_lib ''u2'' example_typing example_world
      = Returned (Some ''json: unsupported value'')
          (record_event (Called_SendToUser ''u2'' example_typing) example_world)"
    by blast
  then have a: "return_value (SendToUser failing_lib ''u2'' example_typing example_world)
       = Some (Some ''json: unsupported value'')"
    by simp
  from t2 m2 e have b: "\<exists>w1 w2. SendToUser example_lib ''u9'' example_typing example_world = Returned None w1
          \<and> Run_broadcast w1 = Inr w2 \<and> heap w2 = heap example_world
          \<and> broadcast (hub w2) = []"
    by blast
  from t3 m2 e have "\<exists>w'. SendToUser example_lib ''u2'' example_typing full_world = Returned None w'"
    by blast
  then have c: "return_value (SendToUser example_lib ''u2'' example_typing full_world) = Some None"
    by auto
  show ?thesis using m1 m2 e a b c by blast
qed

end
